theory Spec2Isabelle
  imports Complex_Main
begin

section \<open>Characters and strings\<close>

text \<open>
  A Python string is a \<open>string\<close> (a list of \<open>char\<close>); a character is identified with its
  code point, which the model takes below 256. \<open>py_ord\<close> is Python's \<open>ord\<close>.
\<close>

definition py_ord :: "char \<Rightarrow> int" where
  "py_ord c = of_char c"

text \<open>The character class \<open>[A-Z]\<close> of the regular expression in \<open>ansistrip\<close>.\<close>

definition is_AZ :: "char \<Rightarrow> bool" where
  "is_AZ c = (65 \<le> py_ord c \<and> py_ord c \<le> 90)"

text \<open>
  \<open>ansistrip(line)\<close> is \<open>re.sub('[^A-Z]+', '', line)\<close>: every maximal run of characters
  outside \<open>A\<close>..\<open>Z\<close> is deleted, so exactly the characters \<open>A\<close>..\<open>Z\<close> stay, in order.
\<close>

definition ansistrip :: "string \<Rightarrow> string" where
  "ansistrip line = filter is_AZ line"

text \<open>
  \<open>line.strip()\<close> removes the whitespace at both ends of the line. For code points below
  256 the characters with \<open>isspace()\<close> true are 9..13, 28..31, 32, 133 and 160.
\<close>

definition isspace :: "char \<Rightarrow> bool" where
  "isspace c = (py_ord c \<in> {9, 10, 11, 12, 13, 28, 29, 30, 31, 32, 133, 160})"

definition strip :: "string \<Rightarrow> string" where
  "strip s = rev (dropWhile isspace (rev (dropWhile isspace s)))"

definition startswith :: "string \<Rightarrow> string \<Rightarrow> bool" where
  "startswith s p = (take (length p) s = p)"

text \<open>Python's \<open><\<close> on strings: lexicographic by code point, a proper prefix being smaller.\<close>

fun str_less :: "string \<Rightarrow> string \<Rightarrow> bool" where
  "str_less [] [] = False"
| "str_less [] (y # ys) = True"
| "str_less (x # xs) [] = False"
| "str_less (x # xs) (y # ys) = (py_ord x < py_ord y \<or> (x = y \<and> str_less xs ys))"

section \<open>Errors and the ansiwrap library\<close>

text \<open>
  \<open>die(msg)\<close> prints a message and exits with status 1; the exceptions raised by
  \<open>colorize_quality\<close> and \<open>print_fastq\<close> are never caught, so they end the run as well.
  Each is a value of \<open>error\<close> carrying the arguments its message is formatted from (the
  file name reported by \<open>fileinput.filename()\<close> is left out). The message itself is not
  counted among the printed lines.
\<close>

datatype error =
    UnableLength nat nat string    \<comment> \<open>\<open>die('Unable to determine length. Got both l1 and l2 for line')\<close>\<close>
  | ValueOutOfRange char string    \<comment> \<open>\<open>Exception('Value c out of range in line')\<close>\<close>
  | ZeroDivisionError              \<comment> \<open>the division in \<open>colorize_quality\<close> by zero\<close>
  | TypeError                      \<comment> \<open>\<open>ord\<close> of a string that is not one character\<close>
  | IndexError                     \<comment> \<open>\<open>COLOR_BUCKETS[bucket]\<close> out of range\<close>
  | SegmentMismatch nat nat        \<comment> \<open>\<open>Exception('l1 vs l2')\<close> in \<open>print_fastq\<close>\<close>
  | MaxQualityRange string         \<comment> \<open>\<open>die('--max-quality must be between "!" and "~"; got ...')\<close>\<close>
  | BadValue nat string            \<comment> \<open>\<open>die('bad value at line lineno of ...: line')\<close>\<close>
  | QualityLonger nat nat nat      \<comment> \<open>\<open>die('quality longer than sequence at line lineno (quality_len > sequence_len)')\<close>\<close>

text \<open>
  The program imports the third-party package \<open>ansiwrap\<close>, which is not part of the
  repository, and calls two of its functions. They are a parameter \<open>L\<close> of every
  function that reaches them: \<open>ansilen L s\<close> is \<open>ansiwrap.ansilen(s)\<close> and
  \<open>ansi_terminate_lines L ls\<close> is \<open>ansiwrap.ansi_terminate_lines(ls)\<close>.
\<close>

record ansiwrap =
  ansilen :: "string \<Rightarrow> nat"
  ansi_terminate_lines :: "string list \<Rightarrow> string list"

definition colorless_len :: "ansiwrap \<Rightarrow> string \<Rightarrow> error + nat" where
  "colorless_len L line =
     (let l1 = ansilen L line;
          l2 = length (ansistrip line)
      in if l1 \<noteq> l2 then Inl (UnableLength l1 l2 line) else Inr l1)"

section \<open>colorize_quality\<close>

abbreviation ESC :: char where
  "ESC \<equiv> CHR 0x1B"

definition COLOR_BUCKETS :: "string list" where
  "COLOR_BUCKETS =
     [ESC # ''[1;30m'', ESC # ''[35m'', ESC # ''[31m'', ESC # ''[33m'',
      ESC # ''[37m'', ESC # ''[32m'', ESC # ''[34m'', ESC # ''[36m'']"

definition COLOR_END :: string where
  "COLOR_END = ESC # ''[0m''"

text \<open>
  \<open>int(x / y)\<close> on Python ints: the true quotient, truncated towards zero. The quotient is
  computed in floating point; for the operands that occur here (\<open>0 \<le> x \<le> 8 * 93\<close> and
  \<open>0 < |y| < 256\<close>) the rounded quotient and the exact one have the same integer part,
  so the model computes on integers. Division by zero raises.
\<close>

definition int_truediv :: "int \<Rightarrow> int \<Rightarrow> error + int" where
  "int_truediv x y =
     (if y = 0 then Inl ZeroDivisionError else Inr (sgn x * sgn y * (\<bar>x\<bar> div \<bar>y\<bar>)))"

text \<open>\<open>xs[i]\<close> on a Python list: a negative index counts from the end.\<close>

definition py_index :: "'a list \<Rightarrow> int \<Rightarrow> error + 'a" where
  "py_index xs i =
     (if 0 \<le> i \<and> i < int (length xs) then Inr (xs ! nat i)
      else if i < 0 \<and> - int (length xs) \<le> i then Inr (xs ! nat (int (length xs) + i))
      else Inl IndexError)"

text \<open>Lines 48 to 50: the bucket of the character \<open>c\<close>.\<close>

definition bucket_of :: "char \<Rightarrow> string \<Rightarrow> error + int" where
  "bucket_of c max_quality =
     (case max_quality of
        [m] \<Rightarrow>
          (case int_truediv (int (length COLOR_BUCKETS) * (py_ord c - py_ord CHR ''!''))
                            (py_ord m - py_ord CHR ''!'') of
             Inl e \<Rightarrow> Inl e
           | Inr bucket \<Rightarrow> Inr (min (int (length COLOR_BUCKETS) - 1) bucket))
      | _ \<Rightarrow> Inl TypeError)"

text \<open>
  The body of the \<open>for c in line\<close> loop: the string appended to \<open>out\<close> for \<open>c\<close>, or the
  exception raised.
\<close>

definition colorize_char :: "char \<Rightarrow> string \<Rightarrow> string \<Rightarrow> error + string" where
  "colorize_char c line max_quality =
     (if py_ord c < py_ord CHR ''!'' \<or> py_ord c > py_ord CHR ''~''
      then Inl (ValueOutOfRange c line)
      else case bucket_of c max_quality of
             Inl e \<Rightarrow> Inl e
           | Inr bucket \<Rightarrow>
               (case py_index COLOR_BUCKETS bucket of
                  Inl e \<Rightarrow> Inl e
                | Inr start_code \<Rightarrow> Inr (start_code @ [c] @ COLOR_END)))"

text \<open>
  The loop over the characters still to visit, \<open>out\<close> being the list built so far; the
  result is \<open>''.join(out)\<close>.
\<close>

fun colorize_loop :: "string \<Rightarrow> string \<Rightarrow> string \<Rightarrow> string list \<Rightarrow> error + string" where
  "colorize_loop [] line max_quality out = Inr (concat out)"
| "colorize_loop (c # cs) line max_quality out =
     (case colorize_char c line max_quality of
        Inl e \<Rightarrow> Inl e
      | Inr s \<Rightarrow> colorize_loop cs line max_quality (out @ [s]))"

definition colorize_quality :: "string \<Rightarrow> string \<Rightarrow> error + string" where
  "colorize_quality line max_quality = colorize_loop line line max_quality []"

section \<open>wrap\<close>

text \<open>
  The \<open>for c in text\<close> loop of \<open>wrap\<close> with its two variables \<open>line\<close> and \<open>lines\<close>, followed
  by the final \<open>if line: lines.append(line)\<close>. \<open>columns\<close> is a Python int, so it may be
  zero or negative; the comparison \<open>length == columns\<close> is then never true for a raw
  count of at least one.
\<close>

fun wrap_loop :: "string \<Rightarrow> bool \<Rightarrow> int \<Rightarrow> string \<Rightarrow> string list \<Rightarrow> string list" where
  "wrap_loop [] strip_ansi columns line lines =
     (if line \<noteq> [] then lines @ [line] else lines)"
| "wrap_loop (c # text) strip_ansi columns line lines =
     (let line' = line @ [c];
          len = (if strip_ansi then length (ansistrip line') else length line')
      in if int len = columns
         then wrap_loop text strip_ansi columns [] (lines @ [line'])
         else wrap_loop text strip_ansi columns line' lines)"

definition wrap :: "ansiwrap \<Rightarrow> string \<Rightarrow> bool \<Rightarrow> int \<Rightarrow> string list" where
  "wrap L text strip_ansi columns =
     (let lines = wrap_loop text strip_ansi columns [] []
      in if strip_ansi then ansi_terminate_lines L lines else lines)"

section \<open>print_fastq\<close>

text \<open>
  The parsed command line as \<open>start\<close> holds it after line 177: \<open>columns\<close> is the value of
  \<open>--columns\<close>, or what \<open>get_columns()\<close> returned when the option is absent or zero.
\<close>

record args =
  columns :: int
  colorize_quality_flag :: bool
  max_quality :: string
  skip_lines :: bool

text \<open>
  Printing is modelled by the list of the lines printed, one element for each call of
  \<open>print\<close>. A function that prints and may raise returns the lines it printed before it
  stopped, and the exception if there was one.

  \<open>print_pairs\<close> is the \<open>for\<close> loop of \<open>print_fastq\<close> over the zipped segments.
\<close>

fun print_pairs :: "ansiwrap \<Rightarrow> args \<Rightarrow> (string \<times> string) list \<Rightarrow> string list \<times> error option" where
  "print_pairs L a [] = ([], None)"
| "print_pairs L a ((sequence_line, quality_line) # rest) =
     (if ansilen L sequence_line \<noteq> ansilen L quality_line
      then ([sequence_line, quality_line],
            Some (SegmentMismatch (ansilen L sequence_line) (ansilen L quality_line)))
      else case (if colorize_quality_flag a
                 then colorize_quality quality_line (max_quality a)
                 else Inr quality_line) of
             Inl e \<Rightarrow> ([sequence_line], Some e)
           | Inr quality_line' \<Rightarrow>
               (let (out, err) = print_pairs L a rest
                in ([sequence_line, quality_line'] @ (if skip_lines a then [[]] else []) @ out,
                    err)))"

definition print_fastq ::
  "ansiwrap \<Rightarrow> args \<Rightarrow> string \<Rightarrow> string \<Rightarrow> string \<Rightarrow> string \<Rightarrow> string list \<times> error option" where
  "print_fastq L a at_line sequence plus_line quality =
     (let (out, err) = print_pairs L a
            (zip (wrap L sequence True (columns a)) (wrap L quality False (columns a)))
      in case err of
           Some e \<Rightarrow> (at_line # out, Some e)
         | None \<Rightarrow> (at_line # out @ [plus_line], None))"

section \<open>start\<close>

text \<open>
  The local variables of \<open>start\<close> that the loop over the input lines reads and writes,
  with the output printed so far. \<open>emitted\<close> is a ghost variable: it records the
  arguments \<open>(at_line, sequence, plus_line, quality)\<close> of every call of \<open>print_fastq\<close>,
  in order, and nothing in the program reads it.
\<close>

record state =
  at_line :: "string option"
  plus_line :: "string option"
  sequence :: "string list"
  quality :: "string list"
  quality_len :: nat
  sequence_len :: nat
  printed :: "string list"
  emitted :: "(string \<times> string \<times> string \<times> string) list"

definition init :: state where
  "init = \<lparr>at_line = None, plus_line = None, sequence = [], quality = [],
           quality_len = 0, sequence_len = 0, printed = [], emitted = []\<rparr>"

text \<open>\<open>not v\<close> for a variable that holds \<open>None\<close> or a string.\<close>

definition falsy :: "string option \<Rightarrow> bool" where
  "falsy v = (v = None \<or> v = Some [])"

text \<open>Lines 182 to 185: the branch \<open>if not at_line\<close>.\<close>

definition header_branch :: "nat \<Rightarrow> string \<Rightarrow> state \<Rightarrow> state \<times> error option" where
  "header_branch lineno line st =
     (if \<not> startswith line ''@'' then (st, Some (BadValue lineno line))
      else (st\<lparr>at_line := Some line\<rparr>, None))"

text \<open>Lines 187 to 191: the branch \<open>elif not plus_line\<close>.\<close>

definition sequence_branch :: "ansiwrap \<Rightarrow> string \<Rightarrow> state \<Rightarrow> state \<times> error option" where
  "sequence_branch L line st =
     (if startswith line ''+'' then (st\<lparr>plus_line := Some line\<rparr>, None)
      else let st1 = st\<lparr>sequence := sequence st @ [line]\<rparr>
           in case colorless_len L line of
                Inl e \<Rightarrow> (st1, Some e)
              | Inr n \<Rightarrow> (st1\<lparr>sequence_len := sequence_len st1 + n\<rparr>, None))"

text \<open>
  Lines 193 to 212: the \<open>else\<close> branch, where \<open>at_s\<close> and \<open>plus_s\<close> are the strings held by
  \<open>at_line\<close> and \<open>plus_line\<close>.
\<close>

definition quality_branch ::
  "ansiwrap \<Rightarrow> args \<Rightarrow> nat \<Rightarrow> string \<Rightarrow> string \<Rightarrow> string \<Rightarrow> state \<Rightarrow> state \<times> error option" where
  "quality_branch L a lineno line at_s plus_s st =
     (let st1 = st\<lparr>quality := quality st @ [line],
                    quality_len := quality_len st + length line\<rparr>
      in if quality_len st1 = sequence_len st1 then
           (let r = (at_s, concat (sequence st1), plus_s, concat (quality st1));
                (out, err) = print_fastq L a at_s (concat (sequence st1)) plus_s
                               (concat (quality st1));
                st2 = st1\<lparr>printed := printed st1 @ out, emitted := emitted st1 @ [r]\<rparr>
            in case err of
                 Some e \<Rightarrow> (st2, Some e)
               | None \<Rightarrow>
                   (st2\<lparr>at_line := None, sequence := [], plus_line := None, quality := [],
                        quality_len := 0, sequence_len := 0\<rparr>, None))
         else if quality_len st1 > sequence_len st1 then
           (st1, Some (QualityLonger lineno (quality_len st1) (sequence_len st1)))
         else (st1, None))"

text \<open>
  The body of the loop for the raw input line \<open>raw\<close> with number \<open>lineno\<close>: the line is
  stripped, then one of the three branches runs.
\<close>

definition body :: "ansiwrap \<Rightarrow> args \<Rightarrow> nat \<Rightarrow> string \<Rightarrow> state \<Rightarrow> state \<times> error option" where
  "body L a lineno raw st =
     (let line = strip raw
      in case at_line st of
           None \<Rightarrow> header_branch lineno line st
         | Some at_s \<Rightarrow>
             if falsy (Some at_s) then header_branch lineno line st
             else case plus_line st of
                    None \<Rightarrow> sequence_branch L line st
                  | Some plus_s \<Rightarrow>
                      if falsy (Some plus_s) then sequence_branch L line st
                      else quality_branch L a lineno line at_s plus_s st)"

text \<open>The loop over \<open>enumerate(fileinput.input(...))\<close>; it stops at the first error.\<close>

fun loop :: "ansiwrap \<Rightarrow> args \<Rightarrow> state \<Rightarrow> (nat \<times> string) list \<Rightarrow> state \<times> error option" where
  "loop L a st [] = (st, None)"
| "loop L a st ((lineno, raw) # rest) =
     (case body L a lineno raw st of
        (st', Some e) \<Rightarrow> (st', Some e)
      | (st', None) \<Rightarrow> loop L a st' rest)"

text \<open>
  \<open>start\<close> from line 170 on: the check of \<open>--max-quality\<close>, then the loop over the lines
  of the input files, concatenated in order.
\<close>

definition start :: "ansiwrap \<Rightarrow> args \<Rightarrow> string list \<Rightarrow> state \<times> error option" where
  "start L a inputs =
     (if length (max_quality a) \<noteq> 1 \<or> str_less (max_quality a) ''!''
         \<or> str_less ''~'' (max_quality a)
      then (init, Some (MaxQualityRange (max_quality a)))
      else loop L a init (enumerate 0 inputs))"

section \<open>The ansiwrap functions on concrete text\<close>

text \<open>
  For results on concrete inputs the two library functions are given as \<open>ansiwrap\<close>
  documents them. \<open>ansilen(s)\<close> is the length of \<open>s\<close> without its ANSI sequences,
  \<open>len(ANSIRE.sub('', s))\<close> with \<open>ANSIRE = '\\x1b\\[(K|.*?m)'\<close>: an escape character and an
  opening bracket followed by \<open>K\<close>, or else by the shortest run of characters other than
  a newline that ends in \<open>m\<close>.

  \<open>ansi_match s\<close> matches \<open>(K|.*?m)\<close> at the start of \<open>s\<close> and returns the matched group
  and the rest; \<open>upto_m\<close> is the alternative \<open>.*?m\<close>.
\<close>

fun upto_m :: "string \<Rightarrow> (string \<times> string) option" where
  "upto_m [] = None"
| "upto_m (c # cs) =
     (if c = CHR ''m'' then Some ([c], cs)
      else if c = CHR 0x0A then None
      else case upto_m cs of
             None \<Rightarrow> None
           | Some (code, rest) \<Rightarrow> Some (c # code, rest))"

definition ansi_match :: "string \<Rightarrow> (string \<times> string) option" where
  "ansi_match s = (case s of c # cs \<Rightarrow> if c = CHR ''K'' then Some ([c], cs) else upto_m s
                   | [] \<Rightarrow> None)"

text \<open>
  \<open>ansi_scan n s\<close> scans \<open>s\<close> from the left as \<open>re.sub\<close> and \<open>re.findall\<close> do and returns the
  text outside the matches together with the groups matched. \<open>n\<close> bounds the number of
  steps; \<open>length s\<close> steps are enough, since every step consumes a character.
\<close>

fun ansi_scan :: "nat \<Rightarrow> string \<Rightarrow> string \<times> string list" where
  "ansi_scan 0 s = (s, [])"
| "ansi_scan (Suc n) [] = ([], [])"
| "ansi_scan (Suc n) [c] = ([c], [])"
| "ansi_scan (Suc n) (c # d # s) =
     (case (if c = ESC \<and> d = CHR ''['' then ansi_match s else None) of
        Some (code, rest) \<Rightarrow> (let (plain, codes) = ansi_scan n rest in (plain, code # codes))
      | None \<Rightarrow> (let (plain, codes) = ansi_scan n (d # s) in (c # plain, codes)))"

definition strip_color :: "string \<Rightarrow> string" where
  "strip_color s = fst (ansi_scan (length s) s)"

definition ansi_codes :: "string \<Rightarrow> string list" where
  "ansi_codes s = snd (ansi_scan (length s) s)"

text \<open>
  \<open>ansi_terminate_lines\<close> walks through the lines with an \<open>ANSIState\<close>: the state consumes
  the codes of the line; the code that was open at the end of the line before is put in
  front of the line, and a line that ends with a code open gets the reset sequence
  appended. The state is kept here as the list of the codes consumed since the last
  reset (\<open>0m\<close> or \<open>m\<close>), \<open>K\<close> not being a colour; \<open>state_code\<close> is the sequence that opens
  them again, empty when there is none. The results below evaluate it on lines without
  escape sequences and on one line coloured by a single code and its reset.
\<close>

definition state_consume :: "string list \<Rightarrow> string \<Rightarrow> string list" where
  "state_consume st code =
     (if code = ''K'' then st
      else if code = ''0m'' \<or> code = ''m'' then []
      else st @ [code])"

definition state_code :: "string list \<Rightarrow> string" where
  "state_code st = concat (map (\<lambda>code. ESC # CHR ''['' # code) st)"

fun terminate_loop :: "string list \<Rightarrow> string \<Rightarrow> string list \<Rightarrow> string list" where
  "terminate_loop st end_code [] = []"
| "terminate_loop st end_code (line # lines) =
     (let st' = foldl state_consume st (ansi_codes line);
          line1 = (if end_code \<noteq> [] then end_code @ line else line);
          end_code' = state_code st';
          line2 = (if end_code' \<noteq> [] then line1 @ ESC # ''[0m'' else line1)
      in line2 # terminate_loop st' end_code' lines)"

definition ansiwrap_lib :: ansiwrap where
  "ansiwrap_lib =
     \<lparr>ansilen = (\<lambda>s. length (strip_color s)),
      ansi_terminate_lines = terminate_loop [] []\<rparr>"

section \<open>Invariants of the loop\<close>

text \<open>
  The two counters agree with the buffers: \<open>sequence_len\<close> is the number of letters
  \<open>A\<close>..\<open>Z\<close> in the sequence lines read so far, \<open>quality_len\<close> the number of characters
  in the quality lines read so far.
\<close>

definition counts_ok :: "state \<Rightarrow> bool" where
  "counts_ok st =
     (sequence_len st = length (ansistrip (concat (sequence st))) \<and>
      quality_len st = length (concat (quality st)))"

text \<open>Every record passed to \<open>print_fastq\<close> has as many letters as quality characters.\<close>

definition emitted_ok :: "state \<Rightarrow> bool" where
  "emitted_ok st =
     (\<forall>(at_s, sq, pl, q) \<in> set (emitted st). length (ansistrip sq) = length q)"


section \<open>Facts about the loop\<close>

text \<open>
  The branch that the body takes is decided by \<open>at_line\<close> and \<open>plus_line\<close>; a run over
  two lists of lines is the run over the first, continued over the second unless the
  first stopped with an error; and each step keeps the two invariants.
\<close>

lemma body_header:
  "falsy (at_line st) \<Longrightarrow> body L a n raw st = header_branch n (strip raw) st"
  by (auto simp: body_def falsy_def split: option.splits)

lemma body_sequence:
  "at_line st = Some at_s \<Longrightarrow> at_s \<noteq> [] \<Longrightarrow> falsy (plus_line st) \<Longrightarrow>
   body L a n raw st = sequence_branch L (strip raw) st"
  by (auto simp: body_def falsy_def split: option.splits)

lemma body_quality:
  "at_line st = Some at_s \<Longrightarrow> at_s \<noteq> [] \<Longrightarrow> plus_line st = Some plus_s \<Longrightarrow> plus_s \<noteq> [] \<Longrightarrow>
   body L a n raw st = quality_branch L a n (strip raw) at_s plus_s st"
  by (simp add: body_def falsy_def)

lemma startswith_nonempty: "startswith s [c] \<Longrightarrow> s \<noteq> []"
  by (auto simp: startswith_def)

lemma loop_append:
  "loop L a st (xs @ ys) =
     (case loop L a st xs of (st', None) \<Rightarrow> loop L a st' ys | (st', Some e) \<Rightarrow> (st', Some e))"
  by (induction xs arbitrary: st) (auto split: prod.splits option.splits)

lemma start_cases:
  "start L a inputs = loop L a init (enumerate 0 inputs) \<or>
   start L a inputs = (init, Some (MaxQualityRange (max_quality a)))"
  by (simp add: start_def)


lemma colorless_len_Inr: "colorless_len L line = Inr n \<Longrightarrow> n = length (ansistrip line)"
  by (auto simp: colorless_len_def Let_def split: if_splits)

lemma ansistrip_append: "ansistrip (xs @ ys) = ansistrip xs @ ansistrip ys"
  by (simp add: ansistrip_def)

lemma ansistrip_Nil: "ansistrip [] = []"
  by (simp add: ansistrip_def)

lemma ansistrip_id: "\<forall>c\<in>set s. is_AZ c \<Longrightarrow> ansistrip s = s"
  by (simp add: ansistrip_def)

lemma init_ok: "counts_ok init" "emitted_ok init"
  by (simp_all add: counts_ok_def emitted_ok_def init_def ansistrip_def)

lemma header_branch_inv:
  assumes "header_branch n line st = (st', err)" "counts_ok st" "emitted_ok st"
  shows "emitted_ok st' \<and> (err = None \<longrightarrow> counts_ok st')"
  using assms by (auto simp: header_branch_def counts_ok_def emitted_ok_def split: if_splits)

lemma sequence_branch_inv:
  assumes "sequence_branch L line st = (st', err)" "counts_ok st" "emitted_ok st"
  shows "emitted_ok st' \<and> (err = None \<longrightarrow> counts_ok st')"
  using assms
  by (auto simp: sequence_branch_def counts_ok_def emitted_ok_def Let_def ansistrip_append
           dest: colorless_len_Inr split: if_splits sum.splits)

lemma quality_branch_inv:
  assumes "quality_branch L a n line at_s plus_s st = (st', err)" "counts_ok st" "emitted_ok st"
  shows "emitted_ok st' \<and> (err = None \<longrightarrow> counts_ok st')"
  using assms
  by (auto simp: quality_branch_def counts_ok_def emitted_ok_def Let_def ansistrip_Nil
           split: if_splits prod.splits option.splits)

lemma body_inv:
  assumes "body L a n raw st = (st', err)" "counts_ok st" "emitted_ok st"
  shows "emitted_ok st' \<and> (err = None \<longrightarrow> counts_ok st')"
  using assms header_branch_inv sequence_branch_inv quality_branch_inv
  unfolding body_def Let_def
  by (auto split: option.splits if_splits)

lemma loop_inv:
  assumes "loop L a st xs = (st', err)" "counts_ok st" "emitted_ok st"
  shows "emitted_ok st' \<and> (err = None \<longrightarrow> counts_ok st')"
  using assms
proof (induction xs arbitrary: st)
  case Nil
  then show ?case by simp
next
  case (Cons x xs)
  obtain n raw where x: "x = (n, raw)" by (cases x)
  obtain st1 e1 where b: "body L a n raw st = (st1, e1)" by (cases "body L a n raw st")
  from body_inv [OF b Cons.prems(2,3)] have i: "emitted_ok st1" "e1 = None \<longrightarrow> counts_ok st1"
    by simp_all
  show ?case
  proof (cases e1)
    case None
    with Cons.prems(1) x b have "loop L a st1 xs = (st', err)" by simp
    from Cons.IH [OF this] i None show ?thesis by simp
  next
    case (Some e)
    with Cons.prems(1) x b have "st' = st1" "err = Some e" by simp_all
    with i show ?thesis by simp
  qed
qed

section \<open>The library on text without escape sequences\<close>

text \<open>
  On text that holds no escape character the two functions of \<open>ansiwrap_lib\<close> do what
  the library does there: \<open>ansilen\<close> is the length, and \<open>ansi_terminate_lines\<close> returns
  the lines as they are.
\<close>

lemma ansi_scan_plain: "ESC \<notin> set s \<Longrightarrow> ansi_scan n s = (s, [])"
proof (induction n s rule: ansi_scan.induct)
  case (4 n c d s)
  then have "c \<noteq> ESC" "ESC \<notin> set (d # s)" by auto
  with "4.IH"(1) show ?case by simp
qed simp_all

lemma ansilen_plain: "ESC \<notin> set s \<Longrightarrow> ansilen ansiwrap_lib s = length s"
  by (simp add: ansiwrap_lib_def strip_color_def ansi_scan_plain)

lemma terminate_plain:
  "\<forall>line\<in>set ls. ESC \<notin> set line \<Longrightarrow> ansi_terminate_lines ansiwrap_lib ls = ls"
proof -
  have "\<forall>line\<in>set ls. ESC \<notin> set line \<Longrightarrow> terminate_loop [] [] ls = ls"
    by (induction ls) (simp_all add: ansi_codes_def ansi_scan_plain state_code_def)
  then show "\<forall>line\<in>set ls. ESC \<notin> set line \<Longrightarrow> ansi_terminate_lines ansiwrap_lib ls = ls"
    by (simp add: ansiwrap_lib_def)
qed

section \<open>Properties of wrap\<close>

lemma concat_wrap_loop:
  "concat (wrap_loop text strip_ansi w line lines) = concat lines @ line @ text"
  by (induction "text" arbitrary: line "lines") (simp_all add: Let_def)

text \<open>
  Claim C5. For every string \<open>text\<close> and every width \<open>w\<close> (in particular every positive
  one), the segments that \<open>wrap\<close> returns in raw count mode (\<open>strip_ansi = False\<close>),
  concatenated in order, are \<open>text\<close> again: no character is dropped or duplicated.
\<close>

theorem wrap_raw_roundtrip: "concat (wrap L text False w) = text"
  by (simp add: wrap_def concat_wrap_loop)

section \<open>The records passed to print_fastq\<close>

text \<open>
  Claim C1. Every record that the loop passes to \<open>print_fastq\<close> has as many letters
  \<open>A\<close>..\<open>Z\<close> in its sequence as characters in its quality, because the record is closed
  only when \<open>quality_len == sequence_len\<close> and the two counters are the raw length of the
  quality lines and the number of letters of the sequence lines. The sequence of a
  record is the concatenation of its sequence lines, so when these contain only
  uppercase letters, \<open>len(sequence) == len(quality)\<close>.
\<close>

theorem emitted_lengths:
  assumes "start L a inputs = (st, err)" "(at_s, sq, pl, q) \<in> set (emitted st)"
  shows "length (ansistrip sq) = length q \<and>
         ((\<forall>c\<in>set sq. is_AZ c) \<longrightarrow> length sq = length q)"
proof -
  have "emitted_ok st"
    using start_cases [of L a inputs] assms(1) loop_inv [of L a init "enumerate 0 inputs" st err]
    by (auto simp: init_ok)
  with assms(2) have "length (ansistrip sq) = length q"
    by (auto simp: emitted_ok_def)
  then show ?thesis by (auto simp: ansistrip_id)
qed

lemma run_two_records:
  "start ansiwrap_lib
     \<lparr>columns = 4, colorize_quality_flag = False, max_quality = ''D'', skip_lines = False\<rparr>
     [''@r1'', ''ACGTAC'', ''+'', ''!!!!!!'', ''@r2'', ''GG'', ''TTA'', ''+x'', ''#####'']
   = (init\<lparr>printed := [''@r1'', ''ACGT'', ''!!!!'', ''AC'', ''!!'', ''+'',
                         ''@r2'', ''GGTT'', ''####'', ''A'', ''#'', ''+x''],
            emitted := [(''@r1'', ''ACGTAC'', ''+'', ''!!!!!!''),
                        (''@r2'', ''GGTTA'', ''+x'', ''#####'')]\<rparr>, None)"
  by code_simp

theorem emitted_lengths_witness:
  "(''@r2'', ''GGTTA'', ''+x'', ''#####'') \<in> set (emitted (fst (start ansiwrap_lib
     \<lparr>columns = 4, colorize_quality_flag = False, max_quality = ''D'', skip_lines = False\<rparr>
     [''@r1'', ''ACGTAC'', ''+'', ''!!!!!!'', ''@r2'', ''GG'', ''TTA'', ''+x'', ''#####''])))
   \<and> list_all is_AZ ''GGTTA''
   \<and> length (ansistrip ''GGTTA'') = length ''#####''
   \<and> length ''GGTTA'' = length ''#####''"
proof -
  have m: "(''@r2'', ''GGTTA'', ''+x'', ''#####'') \<in> set (emitted (fst (start ansiwrap_lib
     \<lparr>columns = 4, colorize_quality_flag = False, max_quality = ''D'', skip_lines = False\<rparr>
     [''@r1'', ''ACGTAC'', ''+'', ''!!!!!!'', ''@r2'', ''GG'', ''TTA'', ''+x'', ''#####''])))"
    by (simp add: run_two_records)
  have u: "\<forall>c\<in>set ''GGTTA''. is_AZ c"
    by (simp add: is_AZ_def py_ord_def)
  from emitted_lengths [OF surjective_pairing m] u m show ?thesis
    by (simp add: list_all_iff)
qed

section \<open>Quality lines that overrun or fall short\<close>










section \<open>The check of --max-quality\<close>







section \<open>Stripping the input lines\<close>





section \<open>Rendering of whole records\<close>

lemma print_fastq_empty_quality: "print_fastq L a at_s sq pl [] = ([at_s, pl], None)"
  by (simp add: print_fastq_def wrap_def)

text \<open>
  Claim C7. The input \<open>@r1\<close>, \<open>ACGTACGT\<close>, \<open>+\<close>, \<open>!!!!!!!!\<close> (each line with its newline),
  without colouring and without blank lines between the pairs, is printed at 4 columns
  as the six lines \<open>@r1\<close>, \<open>ACGT\<close>, \<open>!!!!\<close>, \<open>ACGT\<close>, \<open>!!!!\<close>, \<open>+\<close> and at 8 columns as the
  four lines \<open>@r1\<close>, \<open>ACGTACGT\<close>, \<open>!!!!!!!!\<close>, \<open>+\<close>.
\<close>

theorem scenario_columns_4_and_8:
  "start ansiwrap_lib
     \<lparr>columns = 4, colorize_quality_flag = False, max_quality = ''D'', skip_lines = False\<rparr>
     [''@r1\<newline>'', ''ACGTACGT\<newline>'', ''+\<newline>'', ''!!!!!!!!\<newline>'']
   = (init\<lparr>printed := [''@r1'', ''ACGT'', ''!!!!'', ''ACGT'', ''!!!!'', ''+''],
            emitted := [(''@r1'', ''ACGTACGT'', ''+'', ''!!!!!!!!'')]\<rparr>, None)
   \<and> start ansiwrap_lib
     \<lparr>columns = 8, colorize_quality_flag = False, max_quality = ''D'', skip_lines = False\<rparr>
     [''@r1\<newline>'', ''ACGTACGT\<newline>'', ''+\<newline>'', ''!!!!!!!!\<newline>'']
   = (init\<lparr>printed := [''@r1'', ''ACGTACGT'', ''!!!!!!!!'', ''+''],
            emitted := [(''@r1'', ''ACGTACGT'', ''+'', ''!!!!!!!!'')]\<rparr>, None)"
  by code_simp

theorem scenario_columns_4_and_8_witness:
  "printed (fst (start ansiwrap_lib
     \<lparr>columns = 4, colorize_quality_flag = False, max_quality = ''D'', skip_lines = False\<rparr>
     [''@r1\<newline>'', ''ACGTACGT\<newline>'', ''+\<newline>'', ''!!!!!!!!\<newline>'']))
   = [''@r1'', ''ACGT'', ''!!!!'', ''ACGT'', ''!!!!'', ''+'']
   \<and> printed (fst (start ansiwrap_lib
     \<lparr>columns = 8, colorize_quality_flag = False, max_quality = ''D'', skip_lines = False\<rparr>
     [''@r1\<newline>'', ''ACGTACGT\<newline>'', ''+\<newline>'', ''!!!!!!!!\<newline>'']))
   = [''@r1'', ''ACGTACGT'', ''!!!!!!!!'', ''+'']"
  using scenario_columns_4_and_8 by simp

text \<open>
  Claim C10. When the separator line follows the header at once and the next line is
  empty after stripping, the loop closes a record with empty sequence and empty
  quality (both counters are 0), and \<open>print_fastq\<close> prints exactly the header line and
  the separator line, with no pair between them and no error. This holds whatever the
  ansiwrap library returns, since there is no quality segment to pair.
\<close>

theorem empty_record:
  assumes "length (max_quality a) = 1" "\<not> str_less (max_quality a) ''!''"
    "\<not> str_less ''~'' (max_quality a)"
    "startswith (strip h) ''@''" "startswith (strip p) ''+''" "strip e = []"
  shows "start L a [h, p, e] =
           (init\<lparr>printed := [strip h, strip p],
                 emitted := [(strip h, [], strip p, [])]\<rparr>, None)"
proof -
  let ?s1 = "init\<lparr>at_line := Some (strip h)\<rparr>"
  let ?s2 = "?s1\<lparr>plus_line := Some (strip p)\<rparr>"
  have n: "strip h \<noteq> []" "strip p \<noteq> []"
    using assms(4,5) by (auto dest: startswith_nonempty)
  have 1: "body L a n h init = (?s1, None)" for n
    using assms(4) by (simp add: body_header falsy_def init_def header_branch_def)
  have 2: "body L a n p ?s1 = (?s2, None)" for n
    using assms(5) n body_sequence [of ?s1 "strip h" L a n p]
    by (simp add: falsy_def init_def sequence_branch_def)
  have 3: "body L a n e ?s2 =
     (init\<lparr>printed := [strip h, strip p], emitted := [(strip h, [], strip p, [])]\<rparr>, None)"
    for n
    using assms(6) n body_quality [of ?s2 "strip h" "strip p" L a n e]
    by (simp add: init_def quality_branch_def print_fastq_empty_quality)
  have "start L a [h, p, e] = loop L a init (enumerate 0 [h, p, e])"
    using assms(1-3) by (simp add: start_def)
  then show ?thesis
    by (simp add: 1 2 3)
qed

lemma strip_empty: "strip [] = []" "strip ''+'' = ''+''" "strip ''@r1'' = ''@r1''"
  by code_simp+

theorem empty_record_witness:
  "start ansiwrap_lib
     \<lparr>columns = 4, colorize_quality_flag = False, max_quality = ''D'', skip_lines = False\<rparr>
     [''@r1'', ''+'', []]
   = (init\<lparr>printed := [''@r1'', ''+''], emitted := [(''@r1'', [], ''+'', [])]\<rparr>, None)"
  using empty_record [of
     "\<lparr>columns = 4, colorize_quality_flag = False, max_quality = ''D'', skip_lines = False\<rparr>"
     "''@r1''" "''+''" "[]" ansiwrap_lib]
  by (simp add: strip_empty startswith_def py_ord_def)

section \<open>A sequence on several lines\<close>

lemma strip_acgt: "strip ''ACGT'' = ''ACGT''" "strip ''ACGTACGT'' = ''ACGTACGT''"
  by code_simp+

lemma ansistrip_acgt: "length (ansistrip ''ACGT'') = 4" "length (ansistrip ''ACGTACGT'') = 8"
  by code_simp+

lemma quality_branch_complete:
  assumes "quality_len st + length line = sequence_len st"
    "print_fastq L a at_s (concat (sequence st)) plus_s (concat (quality st) @ line) = (out, err)"
  shows "\<exists>st'. quality_branch L a n line at_s plus_s st = (st', err) \<and>
          printed st' = printed st @ out \<and>
          emitted st' =
            emitted st @ [(at_s, concat (sequence st), plus_s, concat (quality st) @ line)]"
  using assms by (cases err) (simp_all add: quality_branch_def Let_def)

lemma one_record_run:
  assumes v: "length (max_quality a) = 1" "\<not> str_less (max_quality a) ''!''"
      "\<not> str_less ''~'' (max_quality a)"
    and h: "startswith (strip h) ''@''" and p: "startswith (strip p) ''+''"
    and q: "length (strip q) = n"
    and s: "loop L a (init\<lparr>at_line := Some (strip h)\<rparr>) (enumerate 1 seqs) =
              (init\<lparr>at_line := Some (strip h), sequence := ss, sequence_len := n\<rparr>, None)"
    and r: "print_fastq L a (strip h) (concat ss) (strip p) (strip q) = (out, err)"
  shows "\<exists>st. start L a (h # seqs @ [p, q]) = (st, err) \<and> printed st = out \<and>
           emitted st = [(strip h, concat ss, strip p, strip q)]"
proof -
  let ?s1 = "init\<lparr>at_line := Some (strip h)\<rparr>"
  let ?s2 = "init\<lparr>at_line := Some (strip h), sequence := ss, sequence_len := n\<rparr>"
  let ?s3 = "?s2\<lparr>plus_line := Some (strip p)\<rparr>"
  have ne: "strip h \<noteq> []" "strip p \<noteq> []"
    using h p by (auto dest: startswith_nonempty)
  have 1: "body L a k h init = (?s1, None)" for k
    using h by (simp add: body_header falsy_def init_def header_branch_def)
  have 2: "body L a k p ?s2 = (?s3, None)" for k
    using p ne body_sequence [of ?s2 "strip h" L a k p]
    by (simp add: falsy_def init_def sequence_branch_def)
  have "quality_len ?s3 + length (strip q) = sequence_len ?s3"
    using q by (simp add: init_def)
  moreover have "print_fastq L a (strip h) (concat (sequence ?s3)) (strip p)
        (concat (quality ?s3) @ strip q) = (out, err)"
    using r by (simp add: init_def)
  ultimately obtain st' where 3: "quality_branch L a k (strip q) (strip h) (strip p) ?s3 = (st', err)"
      "printed st' = printed ?s3 @ out"
      "emitted st' = emitted ?s3 @
         [(strip h, concat (sequence ?s3), strip p, concat (quality ?s3) @ strip q)]" for k
    using quality_branch_complete [of ?s3 "strip q" L a "strip h" "strip p" out err]
    by (auto simp: quality_branch_def Let_def split: option.splits)
  have 4: "body L a k q ?s3 = (st', err)" for k
    using ne 3(1) [of k] body_quality [of ?s3 "strip h" "strip p" L a k q]
    by (simp add: init_def)
  have "start L a (h # seqs @ [p, q]) = loop L a init (enumerate 0 (h # seqs @ [p, q]))"
    using v by (simp add: start_def)
  also have "\<dots> = loop L a ?s1 (enumerate 1 seqs @ enumerate (1 + length seqs) [p, q])"
    by (simp add: 1 enumerate_append_eq)
  also have "\<dots> = loop L a ?s2 (enumerate (1 + length seqs) [p, q])"
    by (simp only: loop_append s) simp
  also have "\<dots> = (st', err)"
    by (cases err) (simp_all add: 2 4)
  finally show ?thesis
    using 3(2,3) by (simp add: init_def)
qed

text \<open>
  Claim C8. For every header line, every separator line and every quality line of 8
  characters, the input with the sequence on the two lines \<open>ACGT\<close> and \<open>ACGT\<close> and the
  input with the sequence on the one line \<open>ACGTACGT\<close> end in the same way: each passes
  the one record (header, \<open>ACGTACGT\<close>, separator, quality) to \<open>print_fastq\<close>, and each
  prints what \<open>print_fastq\<close> prints for it, with the same error if there is one. The
  library is only asked for the length of the plain lines \<open>ACGT\<close> and \<open>ACGTACGT\<close>.
\<close>

theorem multiline_sequence_same:
  assumes "length (max_quality a) = 1" "\<not> str_less (max_quality a) ''!''"
      "\<not> str_less ''~'' (max_quality a)"
    and "ansilen L ''ACGT'' = 4" "ansilen L ''ACGTACGT'' = 8"
    and "startswith (strip h) ''@''" "startswith (strip p) ''+''" "length (strip q) = 8"
  shows "\<exists>st2 st1 out err.
           start L a [h, ''ACGT'', ''ACGT'', p, q] = (st2, err) \<and>
           start L a [h, ''ACGTACGT'', p, q] = (st1, err) \<and>
           print_fastq L a (strip h) ''ACGTACGT'' (strip p) (strip q) = (out, err) \<and>
           emitted st2 = [(strip h, ''ACGTACGT'', strip p, strip q)] \<and>
           emitted st1 = [(strip h, ''ACGTACGT'', strip p, strip q)] \<and>
           printed st2 = out \<and> printed st1 = out"
proof -
  let ?s1 = "init\<lparr>at_line := Some (strip h)\<rparr>"
  obtain out err where
    r: "print_fastq L a (strip h) ''ACGTACGT'' (strip p) (strip q) = (out, err)"
    by (cases "print_fastq L a (strip h) ''ACGTACGT'' (strip p) (strip q)")
  have ne: "strip h \<noteq> []"
    using assms(6) by (auto dest: startswith_nonempty)
  have c: "colorless_len L ''ACGT'' = Inr 4" "colorless_len L ''ACGTACGT'' = Inr 8"
    using assms(4,5) by (simp_all add: colorless_len_def ansistrip_acgt)
  have sb: "body L a k raw st = sequence_branch L (strip raw) st"
    if "at_line st = Some (strip h)" "plus_line st = None" for k raw st
    using that ne body_sequence [of st "strip h" L a k raw] by (simp add: falsy_def)
  have two: "loop L a ?s1 (enumerate 1 [''ACGT'', ''ACGT'']) =
      (init\<lparr>at_line := Some (strip h), sequence := [''ACGT'', ''ACGT''], sequence_len := 8\<rparr>,
       None)"
    by (simp add: sb init_def strip_acgt sequence_branch_def startswith_def c)
  have one: "loop L a ?s1 (enumerate 1 [''ACGTACGT'']) =
      (init\<lparr>at_line := Some (strip h), sequence := [''ACGTACGT''], sequence_len := 8\<rparr>,
       None)"
    by (simp add: sb init_def strip_acgt sequence_branch_def startswith_def c)
  from one_record_run [OF assms(1-3) assms(6-8) two] r
  obtain st2 where 2: "start L a [h, ''ACGT'', ''ACGT'', p, q] = (st2, err)"
    "printed st2 = out" "emitted st2 = [(strip h, ''ACGTACGT'', strip p, strip q)]"
    by auto
  from one_record_run [OF assms(1-3) assms(6-8) one] r
  obtain st1 where 1: "start L a [h, ''ACGTACGT'', p, q] = (st1, err)"
    "printed st1 = out" "emitted st1 = [(strip h, ''ACGTACGT'', strip p, strip q)]"
    by auto
  from 1 2 r show ?thesis by blast
qed

lemma strip_scenario: "strip ''@r1'' = ''@r1''" "strip ''+'' = ''+''" "strip ''!!!!!!!!'' = ''!!!!!!!!''"
  by code_simp+

lemma ansilen_acgt: "ansilen ansiwrap_lib ''ACGT'' = 4" "ansilen ansiwrap_lib ''ACGTACGT'' = 8"
  by code_simp+

theorem multiline_sequence_same_witness:
  "emitted (fst (start ansiwrap_lib
     \<lparr>columns = 4, colorize_quality_flag = False, max_quality = ''D'', skip_lines = False\<rparr>
     [''@r1'', ''ACGT'', ''ACGT'', ''+'', ''!!!!!!!!''])) =
     [(''@r1'', ''ACGTACGT'', ''+'', ''!!!!!!!!'')]
   \<and> emitted (fst (start ansiwrap_lib
     \<lparr>columns = 4, colorize_quality_flag = False, max_quality = ''D'', skip_lines = False\<rparr>
     [''@r1'', ''ACGTACGT'', ''+'', ''!!!!!!!!''])) =
     [(''@r1'', ''ACGTACGT'', ''+'', ''!!!!!!!!'')]
   \<and> printed (fst (start ansiwrap_lib
     \<lparr>columns = 4, colorize_quality_flag = False, max_quality = ''D'', skip_lines = False\<rparr>
     [''@r1'', ''ACGT'', ''ACGT'', ''+'', ''!!!!!!!!''])) =
     printed (fst (start ansiwrap_lib
     \<lparr>columns = 4, colorize_quality_flag = False, max_quality = ''D'', skip_lines = False\<rparr>
     [''@r1'', ''ACGTACGT'', ''+'', ''!!!!!!!!'']))
   \<and> snd (start ansiwrap_lib
     \<lparr>columns = 4, colorize_quality_flag = False, max_quality = ''D'', skip_lines = False\<rparr>
     [''@r1'', ''ACGT'', ''ACGT'', ''+'', ''!!!!!!!!'']) =
     snd (start ansiwrap_lib
     \<lparr>columns = 4, colorize_quality_flag = False, max_quality = ''D'', skip_lines = False\<rparr>
     [''@r1'', ''ACGTACGT'', ''+'', ''!!!!!!!!''])"
proof -
  let ?a = "\<lparr>columns = 4, colorize_quality_flag = False, max_quality = ''D'',
             skip_lines = False\<rparr>"
  have v: "length (max_quality ?a) = 1" "\<not> str_less (max_quality ?a) ''!''"
      "\<not> str_less ''~'' (max_quality ?a)"
    by (simp_all add: py_ord_def)
  have l: "startswith (strip ''@r1'') ''@''" "startswith (strip ''+'') ''+''"
      "length (strip ''!!!!!!!!'') = 8"
    by (simp_all add: strip_scenario startswith_def)
  from multiline_sequence_same [OF v ansilen_acgt l]
  show ?thesis by (auto simp: strip_scenario)
qed

section \<open>The colour of a quality character\<close>

lemma length_COLOR_BUCKETS: "length COLOR_BUCKETS = 8"
  by (simp add: COLOR_BUCKETS_def)

lemma int_truediv_nonneg:
  "0 \<le> x \<Longrightarrow> 0 < y \<Longrightarrow> int_truediv x y = Inr (x div y)"
  by (cases "x = 0") (simp_all add: int_truediv_def)

lemma bucket_of_in_range:
  assumes "py_ord CHR ''!'' \<le> py_ord c" "py_ord CHR ''!'' < py_ord m"
  shows "bucket_of c [m] =
           Inr (min 7 (8 * (py_ord c - py_ord CHR ''!'') div (py_ord m - py_ord CHR ''!'')))"
  using assms by (simp add: bucket_of_def length_COLOR_BUCKETS int_truediv_nonneg)

lemma py_index_in_range:
  "0 \<le> b \<Longrightarrow> b \<le> 7 \<Longrightarrow> py_index COLOR_BUCKETS b = Inr (COLOR_BUCKETS ! nat b)"
  by (simp add: py_index_def length_COLOR_BUCKETS)

text \<open>
  Claim C6. For a quality character \<open>c\<close> between \<open>!\<close> and \<open>~\<close> and a maximum \<open>m\<close> above \<open>!\<close>
  and at most \<open>~\<close>, the bucket is the floor of
  \<open>8 * (ord(c) - ord('!')) / (ord(m) - ord('!'))\<close>, clamped to 0..7; it lies in 0..7;
  it does not decrease when \<open>c\<close> increases; and colouring the one-character line \<open>c\<close>
  returns the start code of the bucket, \<open>c\<close> and the end code.
\<close>

theorem colorize_bucket:
  assumes "py_ord CHR ''!'' \<le> py_ord c" "py_ord c \<le> py_ord CHR ''~''"
    "py_ord CHR ''!'' < py_ord m" "py_ord m \<le> py_ord CHR ''~''"
  shows "\<exists>b. bucket_of c [m] = Inr b \<and>
           b = max 0 (min 7 \<lfloor>8 * real_of_int (py_ord c - py_ord CHR ''!'')
                                / real_of_int (py_ord m - py_ord CHR ''!'')\<rfloor>) \<and>
           0 \<le> b \<and> b \<le> 7 \<and>
           colorize_quality [c] [m] = Inr (COLOR_BUCKETS ! nat b @ [c] @ COLOR_END) \<and>
           (\<forall>c'. py_ord c \<le> py_ord c' \<and> py_ord c' \<le> py_ord CHR ''~'' \<longrightarrow>
                 (\<exists>b'. bucket_of c' [m] = Inr b' \<and> b \<le> b'))"
proof -
  let ?x = "py_ord c - py_ord CHR ''!''"
  let ?y = "py_ord m - py_ord CHR ''!''"
  let ?b = "min 7 (8 * ?x div ?y)"
  have x: "0 \<le> ?x" and y: "0 < ?y" using assms by simp_all
  have b: "bucket_of c [m] = Inr ?b"
    using assms by (rule_tac bucket_of_in_range)
  have q: "0 \<le> 8 * ?x div ?y"
    using x y by (simp add: pos_imp_zdiv_nonneg_iff)
  then have r: "0 \<le> ?b" "?b \<le> 7" by simp_all
  have "\<lfloor>8 * real_of_int ?x / real_of_int ?y\<rfloor> = 8 * ?x div ?y"
    using floor_divide_of_int_eq [of "8 * ?x" ?y, where ?'a = real] by simp
  then have f: "?b = max 0 (min 7 \<lfloor>8 * real_of_int ?x / real_of_int ?y\<rfloor>)"
    using q by simp
  have col: "colorize_quality [c] [m] = Inr (COLOR_BUCKETS ! nat ?b @ [c] @ COLOR_END)"
    using assms(1,2) r
    by (simp add: colorize_quality_def colorize_char_def b py_index_in_range)
  have mono: "\<exists>b'. bucket_of c' [m] = Inr b' \<and> ?b \<le> b'"
    if "py_ord c \<le> py_ord c'" for c'
  proof -
    have "bucket_of c' [m] =
        Inr (min 7 (8 * (py_ord c' - py_ord CHR ''!'') div ?y))"
      using that assms(1,3) by (intro bucket_of_in_range) simp_all
    moreover have "8 * ?x div ?y \<le> 8 * (py_ord c' - py_ord CHR ''!'') div ?y"
      using that y by (intro zdiv_mono1) simp_all
    ultimately show ?thesis by simp
  qed
  show ?thesis
    using b f r col mono by blast
qed

theorem colorize_bucket_witness:
  "py_ord CHR ''!'' \<le> py_ord CHR ''5'' \<and> py_ord CHR ''5'' \<le> py_ord CHR ''~'' \<and>
   py_ord CHR ''!'' < py_ord CHR ''D'' \<and> py_ord CHR ''D'' \<le> py_ord CHR ''~'' \<and>
   bucket_of CHR ''5'' ''D'' = Inr 4 \<and>
   colorize_quality ''5'' ''D'' = Inr (ESC # ''[37m5'' @ ESC # ''[0m'')"
proof -
  have h: "py_ord CHR ''!'' \<le> py_ord CHR ''5''" "py_ord CHR ''5'' \<le> py_ord CHR ''~''"
    "py_ord CHR ''!'' < py_ord CHR ''D''" "py_ord CHR ''D'' \<le> py_ord CHR ''~''"
    by (simp_all add: py_ord_def)
  have b: "bucket_of CHR ''5'' ''D'' = Inr 4"
    by code_simp
  have n: "COLOR_BUCKETS ! nat 4 = ESC # ''[37m''"
    by code_simp
  from colorize_bucket [OF h] b n h show ?thesis
    by (auto simp: COLOR_END_def)
qed

section \<open>The pairs of segments in print_fastq\<close>












end
